theory Spec2Isabelle
  imports Main
begin

section \<open>Caesar cipher tool: the data model\<close>

text \<open>
  A Python \<open>str\<close> is a sequence of Unicode code points. A character is modelled by its
  code point (what \<open>ord\<close> returns), a string by the list of its code points, so that
  \<open>length\<close> counts characters as Python's \<open>len\<close> does and characters beyond ASCII are
  single elements.
\<close>

type_synonym str = "int list"

text \<open>The code points of an ASCII literal, to write the source's string literals.\<close>

definition ords :: "string \<Rightarrow> str" where
  "ords s = map (\<lambda>c. int (of_char c)) s"

text \<open>
  \<open>str.isalpha\<close> and \<open>str.isupper\<close> on one character are tables of the Unicode
  character database of the Python interpreter, which is not part of the repository.
  The model takes them as a parameter: every theorem below that quantifies over the
  table holds for whatever table the interpreter ships.
\<close>

record chartab =
  isalpha :: "int \<Rightarrow> bool"
  isupper :: "int \<Rightarrow> bool"

text \<open>
  The exceptions the code raises or catches, each with the text \<open>str(e)\<close> gives. A
  constructor stands for the class and its subclasses, all of them subclasses of
  \<open>Exception\<close>; \<open>OtherException\<close> stands for every class that is none of the first
  three.
\<close>

datatype error =
    ValueError str
  | FileNotFoundError str
  | PermissionError str
  | OtherException str

text \<open>The attributes set by \<open>CaesarCipher.__init__\<close>.\<close>

definition alphabet_size :: int where
  "alphabet_size = 26"

definition min_shift :: int where
  "min_shift = 1"

definition max_shift :: int where
  "max_shift = 25"

text \<open>\<open>chr\<close> raises \<open>ValueError\<close> outside \<open>range(0x110000)\<close>.\<close>

definition chr :: "int \<Rightarrow> error + int" where
  "chr i = (if 0 \<le> i \<and> i < 1114112 then Inr i
            else Inl (ValueError (ords ''chr() arg not in range(0x110000)'')))"

section \<open>The transform: \<open>CaesarCipher.cipher\<close>\<close>

text \<open>
  The \<open>for char in text\<close> loop, with the string \<open>result\<close> built so far as accumulator.
  \<open>ord('A')\<close> is 65 and \<open>ord('a')\<close> is 97; Python's \<open>%\<close> with a positive modulus is
  the floor modulus, as \<open>mod\<close> on \<open>int\<close> is.
\<close>

fun cipher_loop :: "chartab \<Rightarrow> int \<Rightarrow> str \<Rightarrow> str \<Rightarrow> error + str" where
  "cipher_loop U shift result [] = Inr result"
| "cipher_loop U shift result (char # rest) =
     (if isalpha U char then
        (let base = (if isupper U char then 65 else 97);
             shifted = (char - base + shift) mod alphabet_size + base
         in case chr shifted of
              Inl e \<Rightarrow> Inl e
            | Inr c \<Rightarrow> cipher_loop U shift (result @ [c]) rest)
      else cipher_loop U shift (result @ [char]) rest)"

definition cipher :: "chartab \<Rightarrow> str \<Rightarrow> int \<Rightarrow> bool \<Rightarrow> error + str" where
  "cipher U text shift decrypt =
     (if \<not> (min_shift \<le> shift \<and> shift \<le> max_shift)
      then Inl (ValueError (ords ''Shift must be between 1 and 25''))
      else cipher_loop U (if decrypt then - shift else shift) [] text)"

definition encrypt :: "chartab \<Rightarrow> str \<Rightarrow> int \<Rightarrow> error + str" where
  "encrypt U text shift = cipher U text shift False"

definition decrypt :: "chartab \<Rightarrow> str \<Rightarrow> int \<Rightarrow> error + str" where
  "decrypt U text shift = cipher U text shift True"

text \<open>
  A table that agrees with Unicode on the code points below 256 (Basic Latin and the
  Latin-1 Supplement): the letters are A-Z, a-z, U+00AA, U+00B5, U+00BA, U+00C0-U+00D6,
  U+00D8-U+00F6 and U+00F8-U+00FF; the uppercase ones are A-Z, U+00C0-U+00D6 and
  U+00D8-U+00DE. It is used to run the model on concrete texts whose characters are
  all below 256, and says nothing about other characters.
\<close>

definition latin1_isalpha :: "int \<Rightarrow> bool" where
  "latin1_isalpha c =
     ((65 \<le> c \<and> c \<le> 90) \<or> (97 \<le> c \<and> c \<le> 122) \<or> c = 170 \<or> c = 181 \<or> c = 186 \<or>
      (192 \<le> c \<and> c \<le> 214) \<or> (216 \<le> c \<and> c \<le> 246) \<or> (248 \<le> c \<and> c \<le> 255))"

definition latin1_isupper :: "int \<Rightarrow> bool" where
  "latin1_isupper c =
     ((65 \<le> c \<and> c \<le> 90) \<or> (192 \<le> c \<and> c \<le> 214) \<or> (216 \<le> c \<and> c \<le> 222))"

definition latin1 :: chartab where
  "latin1 = \<lparr>isalpha = latin1_isalpha, isupper = latin1_isupper\<rparr>"

text \<open>
  A second table, for texts with characters of scripts that have no alphabet: it is
  \<open>latin1\<close> with the hiragana U+3041-U+3096 and the CJK ideographs U+4E00-U+9FA5
  added, which \<open>str.isalpha\<close> takes as alphabetic and \<open>str.isupper\<close> as not uppercase.
  It says nothing about other characters.
\<close>

definition sample_isalpha :: "int \<Rightarrow> bool" where
  "sample_isalpha c =
     (latin1_isalpha c \<or> (12353 \<le> c \<and> c \<le> 12438) \<or> (19968 \<le> c \<and> c \<le> 40869))"

definition unicode_sample :: chartab where
  "unicode_sample = \<lparr>isalpha = sample_isalpha, isupper = latin1_isupper\<rparr>"

text \<open>
  What the loop body does to one character, as a function of the character alone; the
  loop is a \<open>map\<close> of it (lemma \<open>cipher_loop_map\<close>).
\<close>

definition rot :: "chartab \<Rightarrow> int \<Rightarrow> int \<Rightarrow> int" where
  "rot U shift char =
     (if isalpha U char
      then (char - (if isupper U char then 65 else 97) + shift) mod 26
             + (if isupper U char then 65 else 97)
      else char)"

section \<open>Brute force: \<open>CaesarCipher.brute_force_decrypt\<close>\<close>

text \<open>
  A Python \<open>dict\<close> keeps its keys in insertion order: it is an association list, and
  \<open>results[k] = v\<close> replaces the value of a key that is present, in place, and appends
  the pair otherwise.
\<close>

fun dict_set :: "('k \<times> 'v) list \<Rightarrow> 'k \<Rightarrow> 'v \<Rightarrow> ('k \<times> 'v) list" where
  "dict_set [] k v = [(k, v)]"
| "dict_set ((k', v') # d) k v =
     (if k' = k then (k', v) # d else (k', v') # dict_set d k v)"

text \<open>\<open>range(a, b)\<close> on integers: \<open>a, a + 1, ..., b - 1\<close>.\<close>

definition py_range :: "int \<Rightarrow> int \<Rightarrow> int list" where
  "py_range a b = [a..b - 1]"

text \<open>The \<open>for shift in range(...)\<close> loop, with the dictionary \<open>results\<close> as accumulator.\<close>

fun brute_force_loop ::
  "chartab \<Rightarrow> str \<Rightarrow> (int \<times> str) list \<Rightarrow> int list \<Rightarrow> error + (int \<times> str) list" where
  "brute_force_loop U encrypted_text results [] = Inr results"
| "brute_force_loop U encrypted_text results (shift # rest) =
     (case decrypt U encrypted_text shift of
        Inl e \<Rightarrow> Inl e
      | Inr decrypted \<Rightarrow>
          brute_force_loop U encrypted_text (dict_set results shift decrypted) rest)"

definition brute_force_decrypt :: "chartab \<Rightarrow> str \<Rightarrow> error + (int \<times> str) list" where
  "brute_force_decrypt U encrypted_text =
     brute_force_loop U encrypted_text [] (py_range min_shift (max_shift + 1))"

section \<open>Files: \<open>encrypt_file\<close> and \<open>decrypt_file\<close>\<close>

text \<open>
  The operating system is a parameter. \<open>read_text\<close> is
  \<open>with open(p, 'r', encoding='utf-8') as file: content = file.read()\<close>, which returns
  the content or raises; \<open>write_text\<close> is
  \<open>with open(p, 'w', encoding='utf-8') as file: file.write(s)\<close>, which may raise after
  it has changed the file system; \<open>splitext\<close> is \<open>os.path.splitext\<close>;
  \<open>write_stdout\<close> is what \<open>print\<close> does to standard output: given the lines printed
  so far and a line, it gives the lines printed afterwards, and the exception if
  \<open>print\<close> raises (\<open>UnicodeEncodeError\<close> when the stream cannot encode the line, as for
  the cross mark U+274C on a stream that is not UTF-8). The exceptions they raise are
  of class \<open>Exception\<close>.
\<close>

record 'fs os =
  read_text :: "'fs \<Rightarrow> str \<Rightarrow> 'fs \<times> (error + str)"
  write_text :: "'fs \<Rightarrow> str \<Rightarrow> str \<Rightarrow> 'fs \<times> error option"
  splitext :: "str \<Rightarrow> str \<times> str"
  write_stdout :: "str list \<Rightarrow> str \<Rightarrow> str list \<times> error option"

text \<open>
  What a call can change: the file system, and the lines printed so far. A call
  returns a value (\<open>Inr\<close>) or lets an exception out to its caller (\<open>Inl\<close>). An
  interrupt (\<open>KeyboardInterrupt\<close> is not an \<open>Exception\<close>) is outside the model.
\<close>

record 'fs world =
  files :: 'fs
  stdout :: "str list"

definition print :: "'fs os \<Rightarrow> 'fs world \<Rightarrow> str \<Rightarrow> 'fs world \<times> error option" where
  "print OS w line =
     (case write_stdout OS (stdout w) line of
        (lines, raised) \<Rightarrow> (w\<lparr>stdout := lines\<rparr>, raised))"

text \<open>
  The body of every \<open>except\<close> clause: \<open>print(...)\<close>, then \<open>return False\<close>. An exception
  that \<open>print\<close> raises there is raised inside a handler, so no clause of the same
  \<open>try\<close> catches it: it leaves the function.
\<close>

definition print_return_False ::
  "'fs os \<Rightarrow> 'fs world \<Rightarrow> str \<Rightarrow> 'fs world \<times> (error + bool)" where
  "print_return_False OS w line =
     (case print OS w line of
        (w', Some e) \<Rightarrow> (w', Inl e)
      | (w', None) \<Rightarrow> (w', Inr False))"

text \<open>
  The three \<open>except\<close> clauses, the same in both functions, tried in the source's order.
  Code point 10060 is the cross mark the messages start with, 39 the apostrophe.
  \<open>ValueError\<close> and every other exception reach the last clause,
  \<open>except Exception as e\<close>, which prints \<open>str(e)\<close>.
\<close>

fun except_clauses ::
  "'fs os \<Rightarrow> 'fs world \<Rightarrow> str \<Rightarrow> error \<Rightarrow> 'fs world \<times> (error + bool)" where
  "except_clauses OS w input_file (FileNotFoundError m) =
     print_return_False OS w
       ([10060] @ ords '' Error: File '' @ [39] @ input_file @ [39] @ ords '' not found.'')"
| "except_clauses OS w input_file (PermissionError m) =
     print_return_False OS w ([10060] @ ords '' Error: Permission denied accessing file.'')"
| "except_clauses OS w input_file (ValueError m) =
     print_return_False OS w ([10060] @ ords '' Error: '' @ m)"
| "except_clauses OS w input_file (OtherException m) =
     print_return_False OS w ([10060] @ ords '' Error: '' @ m)"

definition encrypt_file ::
  "chartab \<Rightarrow> 'fs os \<Rightarrow> 'fs world \<Rightarrow> str \<Rightarrow> int \<Rightarrow> str option
     \<Rightarrow> 'fs world \<times> (error + bool)" where
  "encrypt_file U OS w input_file shift output_file =
     (case read_text OS (files w) input_file of
        (fs1, Inl e) \<Rightarrow> except_clauses OS (w\<lparr>files := fs1\<rparr>) input_file e
      | (fs1, Inr content) \<Rightarrow>
          (case encrypt U content shift of
             Inl e \<Rightarrow> except_clauses OS (w\<lparr>files := fs1\<rparr>) input_file e
           | Inr encrypted_content \<Rightarrow>
               (let out = (case output_file of
                             None \<Rightarrow> (case splitext OS input_file of
                                        (name, ext) \<Rightarrow> name @ ords ''_encrypted'' @ ext)
                           | Some p \<Rightarrow> p)
                in case write_text OS fs1 out encrypted_content of
                     (fs2, Some e) \<Rightarrow> except_clauses OS (w\<lparr>files := fs2\<rparr>) input_file e
                   | (fs2, None) \<Rightarrow> (w\<lparr>files := fs2\<rparr>, Inr True))))"

definition decrypt_file ::
  "chartab \<Rightarrow> 'fs os \<Rightarrow> 'fs world \<Rightarrow> str \<Rightarrow> int \<Rightarrow> str option
     \<Rightarrow> 'fs world \<times> (error + bool)" where
  "decrypt_file U OS w input_file shift output_file =
     (case read_text OS (files w) input_file of
        (fs1, Inl e) \<Rightarrow> except_clauses OS (w\<lparr>files := fs1\<rparr>) input_file e
      | (fs1, Inr content) \<Rightarrow>
          (case decrypt U content shift of
             Inl e \<Rightarrow> except_clauses OS (w\<lparr>files := fs1\<rparr>) input_file e
           | Inr decrypted_content \<Rightarrow>
               (let out = (case output_file of
                             None \<Rightarrow> (case splitext OS input_file of
                                        (name, ext) \<Rightarrow> name @ ords ''_decrypted'' @ ext)
                           | Some p \<Rightarrow> p)
                in case write_text OS fs1 out decrypted_content of
                     (fs2, Some e) \<Rightarrow> except_clauses OS (w\<lparr>files := fs2\<rparr>) input_file e
                   | (fs2, None) \<Rightarrow> (w\<lparr>files := fs2\<rparr>, Inr True))))"

text \<open>
  A small operating system to run the file functions on: the file system is an
  association list from paths to contents, a path listed in \<open>denied\<close> refuses access,
  reading a path that is absent raises \<open>FileNotFoundError\<close>, and writing creates or
  overwrites the file, and \<open>print\<close> appends the line. \<open>posix_splitext\<close> follows \<open>posixpath.splitext\<close> of the standard
  library: the extension starts at the last dot of the last path component, leading
  dots of that component apart (46 is the dot, 47 the slash).
\<close>

definition rfind :: "int \<Rightarrow> str \<Rightarrow> int" where
  "rfind c p =
     (if c \<in> set p
      then int (length p) - 1 - int (length (takeWhile (\<lambda>x. x \<noteq> c) (rev p)))
      else - 1)"

definition posix_splitext :: "str \<Rightarrow> str \<times> str" where
  "posix_splitext p =
     (let sepIndex = rfind 47 p; dotIndex = rfind 46 p
      in if dotIndex > sepIndex \<and>
            list_ex (\<lambda>x. x \<noteq> 46)
              (take (nat (dotIndex - sepIndex - 1)) (drop (nat (sepIndex + 1)) p))
         then (take (nat dotIndex) p, drop (nat dotIndex) p)
         else (p, []))"

definition mem_os :: "str list \<Rightarrow> ((str \<times> str) list) os" where
  "mem_os denied =
     \<lparr>read_text = (\<lambda>fs p.
        if p \<in> set denied then (fs, Inl (PermissionError (ords ''Permission denied'')))
        else (case map_of fs p of
                None \<Rightarrow> (fs, Inl (FileNotFoundError (ords ''No such file or directory'')))
              | Some content \<Rightarrow> (fs, Inr content))),
      write_text = (\<lambda>fs p s.
        if p \<in> set denied then (fs, Some (PermissionError (ords ''Permission denied'')))
        else (dict_set fs p s, None)),
      splitext = posix_splitext,
      write_stdout = (\<lambda>lines line. (lines @ [line], None))\<rparr>"


text \<open>
  The ASCII letters, and what a table has to say about them to agree with Python:
  \<open>'A'..'Z'\<close> (65..90) are uppercase letters, \<open>'a'..'z'\<close> (97..122) are letters that are
  not uppercase.
\<close>

definition ascii_letter :: "int \<Rightarrow> bool" where
  "ascii_letter c = ((65 \<le> c \<and> c \<le> 90) \<or> (97 \<le> c \<and> c \<le> 122))"

definition ascii_letters_ok :: "chartab \<Rightarrow> bool" where
  "ascii_letters_ok U =
     (list_all (\<lambda>c. isalpha U c \<and> isupper U c) [65..90] \<and>
      list_all (\<lambda>c. isalpha U c \<and> \<not> isupper U c) [97..122])"

section \<open>Properties of the transform\<close>

lemma chr_shifted:
  "base = 65 \<or> base = 97 \<Longrightarrow> chr (x mod alphabet_size + base) = Inr (x mod 26 + base)"
proof -
  assume b: "base = 65 \<or> base = 97"
  have "0 \<le> x mod 26" and "x mod 26 < 26" by simp_all
  with b show ?thesis by (auto simp: chr_def alphabet_size_def)
qed

lemma cipher_loop_map:
  "cipher_loop U shift result t = Inr (result @ map (rot U shift) t)"
proof (induction t arbitrary: result)
  case Nil
  show ?case by simp
next
  case (Cons char rest)
  show ?case
  proof (cases "isalpha U char")
    case True
    then show ?thesis
      by (simp add: Let_def chr_shifted Cons.IH rot_def)
  next
    case False
    then show ?thesis
      by (simp add: Cons.IH rot_def)
  qed
qed

lemma cipher_valid:
  "1 \<le> shift \<Longrightarrow> shift \<le> 25 \<Longrightarrow>
   cipher U t shift d = Inr (map (rot U (if d then - shift else shift)) t)"
  by (simp add: cipher_def min_shift_def max_shift_def cipher_loop_map)

lemma ascii_upper:
  "ascii_letters_ok U \<Longrightarrow> 65 \<le> c \<Longrightarrow> c \<le> 90 \<Longrightarrow> isalpha U c \<and> isupper U c"
  unfolding ascii_letters_ok_def list_all_iff set_upto by auto

lemma ascii_lower:
  "ascii_letters_ok U \<Longrightarrow> 97 \<le> c \<Longrightarrow> c \<le> 122 \<Longrightarrow> isalpha U c \<and> \<not> isupper U c"
  unfolding ascii_letters_ok_def list_all_iff set_upto by auto

lemma latin1_ascii_letters_ok: "ascii_letters_ok latin1"
  unfolding ascii_letters_ok_def list_all_iff set_upto
  by (simp add: latin1_def latin1_isalpha_def latin1_isupper_def)

lemma rot_not_alpha: "\<not> isalpha U c \<Longrightarrow> rot U s c = c"
  by (simp add: rot_def)

lemma rot_upper: "isalpha U c \<Longrightarrow> isupper U c \<Longrightarrow> 65 \<le> rot U s c \<and> rot U s c \<le> 90"
proof -
  assume a: "isalpha U c" "isupper U c"
  have "0 \<le> (c - 65 + s) mod 26" and "(c - 65 + s) mod 26 < 26" by simp_all
  with a show ?thesis by (simp add: rot_def)
qed

lemma rot_lower:
  "isalpha U c \<Longrightarrow> \<not> isupper U c \<Longrightarrow> 97 \<le> rot U s c \<and> rot U s c \<le> 122"
proof -
  assume a: "isalpha U c" "\<not> isupper U c"
  have "0 \<le> (c - 97 + s) mod 26" and "(c - 97 + s) mod 26 < 26" by simp_all
  with a show ?thesis by (simp add: rot_def)
qed

subsection \<open>Decrypting an encryption\<close>

lemma unshift: "0 \<le> x \<Longrightarrow> x < 26 \<Longrightarrow> ((x + s) mod 26 - s) mod 26 = (x::int)"
  by (simp add: mod_diff_left_eq)

lemma rot_rot_upper:
  assumes ok: "ascii_letters_ok U" and c: "65 \<le> c" "c \<le> 90"
  shows "rot U (- s) (rot U s c) = c"
proof -
  have cu: "isalpha U c \<and> isupper U c" using ok c by (rule ascii_upper)
  then have r: "rot U s c = (c - 65 + s) mod 26 + 65" by (simp add: rot_def)
  have "65 \<le> rot U s c \<and> rot U s c \<le> 90" using cu by (simp add: rot_upper)
  then have ru: "isalpha U (rot U s c) \<and> isupper U (rot U s c)"
    using ok ascii_upper by blast
  have "rot U (- s) (rot U s c) = (rot U s c - 65 + - s) mod 26 + 65"
    using ru by (simp add: rot_def)
  also have "\<dots> = ((c - 65 + s) mod 26 - s) mod 26 + 65" by (simp add: r)
  also have "\<dots> = (c - 65) + 65" using c by (simp add: unshift)
  finally show ?thesis by simp
qed

lemma rot_rot_lower:
  assumes ok: "ascii_letters_ok U" and c: "97 \<le> c" "c \<le> 122"
  shows "rot U (- s) (rot U s c) = c"
proof -
  have cu: "isalpha U c \<and> \<not> isupper U c" using ok c by (rule ascii_lower)
  then have r: "rot U s c = (c - 97 + s) mod 26 + 97" by (simp add: rot_def)
  have "97 \<le> rot U s c \<and> rot U s c \<le> 122" using cu by (simp add: rot_lower)
  then have ru: "isalpha U (rot U s c) \<and> \<not> isupper U (rot U s c)"
    using ok ascii_lower by blast
  have "rot U (- s) (rot U s c) = (rot U s c - 97 + - s) mod 26 + 97"
    using ru by (simp add: rot_def)
  also have "\<dots> = ((c - 97 + s) mod 26 - s) mod 26 + 97" by (simp add: r)
  also have "\<dots> = (c - 97) + 97" using c by (simp add: unshift)
  finally show ?thesis by simp
qed

text \<open>
  Where the letters of the text are exactly its ASCII letters, decrypting the
  encryption gives the text back, for every table that is right about the ASCII
  letters.
\<close>

lemma roundtrip_ascii_letters:
  assumes ok: "ascii_letters_ok U" and s: "1 \<le> s" "s \<le> 25"
    and t: "list_all (\<lambda>c. isalpha U c = ascii_letter c) t"
  shows "\<exists>e. encrypt U t s = Inr e \<and> decrypt U e s = Inr t"
proof -
  have "rot U (- s) (rot U s c) = c" if "c \<in> set t" for c
  proof (cases "isalpha U c")
    case True
    with t that have "ascii_letter c" by (simp add: list_all_iff)
    then show ?thesis
      using ok rot_rot_upper rot_rot_lower by (auto simp: ascii_letter_def)
  next
    case False
    then show ?thesis by (simp add: rot_not_alpha)
  qed
  then have "map (rot U (- s)) (map (rot U s) t) = t"
    by (simp add: map_idI)
  then show ?thesis
    using s by (simp add: encrypt_def decrypt_def cipher_valid)
qed

text \<open>
  C1. The claim: for every shift in 1..25 and every text, non-ASCII characters
  included, \<open>cipher(cipher(t, s, decrypt=False), s, decrypt=True) == t\<close>. The code does
  not do this for a letter outside ASCII: U+00E9 (e with acute, code point 233) is
  alphabetic and not uppercase, so with shift 3 it is encrypted to
  \<open>(233 - 97 + 3) % 26 + 97 = 106\<close>, the letter j, and j is decrypted to
  \<open>(106 - 97 - 3) % 26 + 97 = 103\<close>, the letter g, not to U+00E9.
\<close>

theorem roundtrip_fails_at_e_acute:
  "encrypt latin1 [233] 3 = Inr [106] \<and> decrypt latin1 [106] 3 = Inr [103]"
  by (simp add: encrypt_def decrypt_def cipher_def min_shift_def max_shift_def
      alphabet_size_def latin1_def latin1_isalpha_def latin1_isupper_def chr_def)

subsection \<open>Characters that are not letters\<close>

text \<open>
  For every shift in 1..25, every text and both directions, a character of the text
  for which \<open>isalpha\<close> is false is at the same position of the output, unchanged (and
  the output exists and has the length of the text). This holds for every table.
\<close>

lemma isalpha_false_unchanged:
  assumes "1 \<le> s" and "s \<le> 25" and "i < length t" and "\<not> isalpha U (t ! i)"
  shows "\<exists>r. cipher U t s d = Inr r \<and> length r = length t \<and> r ! i = t ! i"
  using assms by (simp add: cipher_valid rot_not_alpha)

text \<open>
  C2. The claim: every character that is not an alphabetic letter (digits,
  punctuation, whitespace, symbols, characters of non-alphabetic scripts) is unchanged
  at its position. The code keeps the characters for which \<open>isalpha\<close> is false (lemma
  \<open>isalpha_false_unchanged\<close>), and \<open>isalpha\<close> is true of characters of scripts without
  an alphabet and of some symbols, which the loop rewrites: with shift 3 the ideograph
  U+4E2D (20013) becomes \<open>(20013 - 97 + 3) % 26 + 97 = 100\<close>, the letter d, and the
  hiragana U+3042 (12354) becomes o (111), the space between them staying; the micro
  sign U+00B5 and the ordinal indicators U+00AA and U+00BA become j, y and o.
\<close>

theorem non_alphabetic_scripts_rewritten:
  "cipher unicode_sample [20013, 32, 12354] 3 False = Inr [100, 32, 111]
   \<and> cipher latin1 [181, 170, 186] 3 False = Inr [106, 121, 111]"
  by (simp add: cipher_def min_shift_def max_shift_def alphabet_size_def chr_def
      unicode_sample_def sample_isalpha_def latin1_def latin1_isalpha_def latin1_isupper_def)

subsection \<open>The shift's range\<close>

text \<open>
  C3. For every text and direction, \<open>cipher\<close> raises \<open>ValueError\<close> (with the message of
  the range check) exactly when the shift is outside 1..25, in particular for 0 and
  26; it raises nothing else, and when it raises it returns no text.
\<close>

theorem invalid_shift_raises:
  "(cipher U t s d = Inl (ValueError (ords ''Shift must be between 1 and 25''))) = (s < 1 \<or> 25 < s)
   \<and> (\<exists>e. cipher U t s d = Inl e) = (s < 1 \<or> 25 < s)
   \<and> (\<exists>r. cipher U t s d = Inr r) = (1 \<le> s \<and> s \<le> 25)
   \<and> cipher U t 0 d = Inl (ValueError (ords ''Shift must be between 1 and 25''))
   \<and> cipher U t 26 d = Inl (ValueError (ords ''Shift must be between 1 and 25''))"
proof (cases "1 \<le> s \<and> s \<le> 25")
  case True
  then show ?thesis
    by (simp add: cipher_valid) (simp add: cipher_def min_shift_def max_shift_def)
next
  case False
  then show ?thesis
    by (auto simp: cipher_def min_shift_def max_shift_def)
qed

subsection \<open>Test vectors\<close>

text \<open>
  C5. \<open>encrypt("Hello World!", 3)\<close> returns \<open>"Khoor Zruog!"\<close> and
  \<open>encrypt("Attack at dawn!", 5)\<close> returns \<open>"Fyyfhp fy ifbs!"\<close>.
\<close>

theorem test_vectors:
  "encrypt latin1 (ords ''Hello World!'') 3 = Inr (ords ''Khoor Zruog!'')
   \<and> encrypt latin1 (ords ''Attack at dawn!'') 5 = Inr (ords ''Fyyfhp fy ifbs!'')"
  by (simp add: encrypt_def cipher_def min_shift_def max_shift_def alphabet_size_def
      ords_def latin1_def latin1_isalpha_def latin1_isupper_def chr_def)

subsection \<open>Length\<close>

text \<open>
  C9. For every text, every shift in 1..25 and both directions, \<open>cipher\<close> returns a
  text with as many characters as its input.
\<close>

theorem length_preserved:
  assumes "1 \<le> s" and "s \<le> 25"
  shows "\<exists>r. cipher U t s d = Inr r \<and> length r = length t"
  using assms by (simp add: cipher_valid)

theorem length_preserved_witness:
  "(1::int) \<le> 7 \<and> (7::int) \<le> 25
   \<and> (\<exists>r. cipher latin1 (ords ''Caf'' @ [233]) 7 False = Inr r
         \<and> length r = length (ords ''Caf'' @ [233]))"
  using length_preserved [of 7 latin1 "ords ''Caf'' @ [233]" False] by simp
subsection \<open>Case\<close>

text \<open>
  C6. For every shift in 1..25, every text and both directions, the case of a letter is
  kept: an uppercase letter at position \<open>i\<close> gives an uppercase letter at position \<open>i\<close>
  of the output (one of \<open>'A'..'Z'\<close>), and a letter that is not uppercase, in particular
  every lowercase letter, gives one of the lowercase letters \<open>'a'..'z'\<close>, which is not
  uppercase. The table is any table that is right about the ASCII letters.
\<close>

theorem case_preserved:
  assumes "ascii_letters_ok U" and "1 \<le> s" and "s \<le> 25" and "i < length t"
    and "isalpha U (t ! i)"
  shows "\<exists>r. cipher U t s d = Inr r \<and> isalpha U (r ! i)
           \<and> isupper U (r ! i) = isupper U (t ! i)
           \<and> (if isupper U (t ! i) then 65 \<le> r ! i \<and> r ! i \<le> 90
               else 97 \<le> r ! i \<and> r ! i \<le> 122)"
proof (cases "isupper U (t ! i)")
  case True
  let ?k = "if d then - s else s"
  have "65 \<le> rot U ?k (t ! i) \<and> rot U ?k (t ! i) \<le> 90"
    using assms(5) True by (rule rot_upper)
  moreover from this have "isalpha U (rot U ?k (t ! i)) \<and> isupper U (rot U ?k (t ! i))"
    using assms(1) ascii_upper by blast
  ultimately show ?thesis
    using assms(2,3,4) True by (simp add: cipher_valid)
next
  case False
  let ?k = "if d then - s else s"
  have "97 \<le> rot U ?k (t ! i) \<and> rot U ?k (t ! i) \<le> 122"
    using assms(5) False by (rule rot_lower)
  moreover from this have "isalpha U (rot U ?k (t ! i)) \<and> \<not> isupper U (rot U ?k (t ! i))"
    using assms(1) ascii_lower by blast
  ultimately show ?thesis
    using assms(2,3,4) False by (simp add: cipher_valid)
qed

theorem case_preserved_witness:
  "ascii_letters_ok latin1 \<and> (1::int) \<le> 3 \<and> (3::int) \<le> 25 \<and> (0::nat) < length [201, 233]
   \<and> isalpha latin1 ([201, 233] ! 0)
   \<and> (\<exists>r. cipher latin1 [201, 233] 3 True = Inr r \<and> isalpha latin1 (r ! 0)
         \<and> isupper latin1 (r ! 0) = isupper latin1 ([201, 233] ! 0)
         \<and> (if isupper latin1 ([201, 233] ! 0) then 65 \<le> r ! 0 \<and> r ! 0 \<le> 90
             else 97 \<le> r ! 0 \<and> r ! 0 \<le> 122))"
  using case_preserved [of latin1 3 0 "[201, 233]" True] latin1_ascii_letters_ok
  by (simp add: latin1_def latin1_isalpha_def)

subsection \<open>Letters outside ASCII\<close>

text \<open>
  C10. For every shift in 1..25 and both directions, every position of the input that
  holds an alphabetic character, the letters outside \<open>'A'..'Z'\<close> and \<open>'a'..'z'\<close>
  included, holds in the output a character of \<open>'A'..'Z'\<close> if the input character is
  uppercase and of \<open>'a'..'z'\<close> if it is not; so a letter outside ASCII is replaced, not
  passed through. This holds for every table. In the witness U+00C9 becomes J and
  U+00E9 becomes j.
\<close>

theorem letters_mapped_into_ascii:
  assumes "1 \<le> s" and "s \<le> 25" and "i < length t" and "isalpha U (t ! i)"
  shows "\<exists>r. cipher U t s d = Inr r
           \<and> (if isupper U (t ! i) then 65 \<le> r ! i \<and> r ! i \<le> 90
               else 97 \<le> r ! i \<and> r ! i \<le> 122)
           \<and> (\<not> ascii_letter (t ! i) \<longrightarrow> r ! i \<noteq> t ! i)"
proof -
  let ?k = "if d then - s else s"
  have r: "if isupper U (t ! i) then 65 \<le> rot U ?k (t ! i) \<and> rot U ?k (t ! i) \<le> 90
           else 97 \<le> rot U ?k (t ! i) \<and> rot U ?k (t ! i) \<le> 122"
    using assms(4) rot_upper rot_lower by simp
  then have "ascii_letter (rot U ?k (t ! i))"
    by (auto simp: ascii_letter_def split: if_splits)
  then have "\<not> ascii_letter (t ! i) \<longrightarrow> rot U ?k (t ! i) \<noteq> t ! i"
    by auto
  with r show ?thesis
    using assms(1,2,3) by (simp add: cipher_valid)
qed

theorem letters_mapped_into_ascii_witness:
  "(1::int) \<le> 3 \<and> (3::int) \<le> 25 \<and> (1::nat) < length [201, 233]
   \<and> isalpha latin1 ([201, 233] ! 1)
   \<and> \<not> isupper latin1 ([201, 233] ! 1) \<and> \<not> ascii_letter ([201, 233] ! 1)
   \<and> cipher latin1 [201, 233] 3 False = Inr [74, 106]
   \<and> (\<exists>r. cipher latin1 [201, 233] 3 False = Inr r
         \<and> (if isupper latin1 ([201, 233] ! 1) then 65 \<le> r ! 1 \<and> r ! 1 \<le> 90
             else 97 \<le> r ! 1 \<and> r ! 1 \<le> 122)
         \<and> r ! 1 \<noteq> [201, 233] ! 1)"
  using letters_mapped_into_ascii [of 3 1 "[201, 233]" latin1 False]
  by (simp add: latin1_def latin1_isalpha_def latin1_isupper_def ascii_letter_def
      cipher_def min_shift_def max_shift_def alphabet_size_def chr_def)

section \<open>Properties of brute force\<close>

lemma dict_set_fresh: "k \<notin> fst ` set d \<Longrightarrow> dict_set d k v = d @ [(k, v)]"
  by (induction d) auto

lemma brute_force_loop_valid:
  assumes "distinct shifts" and "set shifts \<subseteq> {1..25}" and "set shifts \<inter> fst ` set results = {}"
  shows "brute_force_loop U c results shifts
           = Inr (results @ map (\<lambda>s. (s, map (rot U (- s)) c)) shifts)"
  using assms
proof (induction shifts arbitrary: results)
  case Nil
  show ?case by simp
next
  case (Cons s rest)
  from Cons.prems have s: "1 \<le> s" "s \<le> 25" by auto
  from Cons.prems have fresh: "s \<notin> fst ` set results" by auto
  have dec: "decrypt U c s = Inr (map (rot U (- s)) c)"
    using s by (simp add: decrypt_def cipher_valid)
  have "set rest \<inter> fst ` set (results @ [(s, map (rot U (- s)) c)]) = {}"
    using Cons.prems by auto
  with Cons.prems have
    "brute_force_loop U c (results @ [(s, map (rot U (- s)) c)]) rest
       = Inr ((results @ [(s, map (rot U (- s)) c)]) @ map (\<lambda>s. (s, map (rot U (- s)) c)) rest)"
    by (intro Cons.IH) auto
  then show ?case
    by (simp add: dec dict_set_fresh [OF fresh])
qed

lemma brute_force_decrypt_eq:
  "brute_force_decrypt U c = Inr (map (\<lambda>s. (s, map (rot U (- s)) c)) [1..25])"
  unfolding brute_force_decrypt_def py_range_def min_shift_def max_shift_def
  using brute_force_loop_valid [of "[1..25]" "[]" U c] by simp

text \<open>
  For every text and every table, \<open>brute_force_decrypt\<close> returns a dictionary of
  exactly 25 entries whose keys, in insertion order, are 1, 2, ..., 25, and the entry
  at key \<open>s\<close> is what \<open>decrypt\<close> returns for the text and \<open>s\<close>.
\<close>

lemma brute_force_decrypt_entries:
  "\<exists>d. brute_force_decrypt U c = Inr d \<and> length d = 25 \<and> map fst d = [1..25]
        \<and> list_all (\<lambda>(s, x). decrypt U c s = Inr x) d"
proof -
  let ?d = "map (\<lambda>s. (s, map (rot U (- s)) c)) [1..25]"
  have "map fst ?d = [1..25]" by (simp add: comp_def)
  moreover have "length ?d = 25" by simp
  moreover have "list_all (\<lambda>(s, x). decrypt U c s = Inr x) ?d"
    unfolding list_all_iff by (auto simp: decrypt_def cipher_valid)
  ultimately show ?thesis using brute_force_decrypt_eq by blast
qed

text \<open>
  C4. The claim: \<open>brute_force_decrypt(c)\<close> has exactly 25 entries keyed 1..25 in
  ascending order, the entry at \<open>s\<close> being \<open>decrypt(c, s)\<close>, and so, when \<open>c\<close> is
  \<open>encrypt(p, s0)\<close>, the entry at \<open>s0\<close> is the plaintext \<open>p\<close>. The first part holds
  (lemma \<open>brute_force_decrypt_entries\<close>); the second fails for a plaintext with a
  letter outside ASCII: U+00E9 (code point 233) is encrypted with shift 3 to j (106),
  and the entry at key 3 of \<open>brute_force_decrypt("j")\<close> is g (103), not U+00E9.
\<close>

theorem brute_force_misses_e_acute:
  "encrypt latin1 [233] 3 = Inr [106]
   \<and> (\<exists>d. brute_force_decrypt latin1 [106] = Inr d \<and> map_of d 3 = Some [103])"
proof -
  have "map_of (map (\<lambda>s. (s, map (rot latin1 (- s)) [106])) [1..25]) 3
          = Some (map (rot latin1 (- 3)) [106])"
    by (simp add: map_of_map_restrict)
  moreover have "map (rot latin1 (- 3)) [106] = [103]"
    by (simp add: rot_def latin1_def latin1_isalpha_def latin1_isupper_def)
  moreover have "encrypt latin1 [233] 3 = Inr [106]"
    by (simp add: encrypt_def cipher_valid rot_def latin1_def latin1_isalpha_def
        latin1_isupper_def)
  ultimately show ?thesis
    by (simp add: brute_force_decrypt_eq)
qed

section \<open>Properties of the file functions\<close>



text \<open>
  C7. When no output path is given and the input file is read and the shift is in
  1..25, \<open>encrypt_file\<close> writes the encrypted content to the path made of the stem of
  the input path, \<open>_encrypted\<close> and the extension of the input path (stem and
  extension as \<open>os.path.splitext\<close> gives them), and \<open>decrypt_file\<close> writes the decrypted
  content to stem, \<open>_decrypted\<close> and extension; each behaves as if that path had been
  given. In the witness \<open>notes.txt\<close> gives \<open>notes_encrypted.txt\<close> and
  \<open>notes_decrypted.txt\<close>.
\<close>

theorem default_output_path:
  assumes "read_text OS (files w) input_file = (fs1, Inr content)"
    and "1 \<le> shift" and "shift \<le> 25"
    and "splitext OS input_file = (name, ext)"
  shows "\<exists>enc dec. encrypt U content shift = Inr enc \<and> decrypt U content shift = Inr dec
     \<and> encrypt_file U OS w input_file shift None
         = (case write_text OS fs1 (name @ ords ''_encrypted'' @ ext) enc of
              (fs2, Some e) \<Rightarrow> except_clauses OS (w\<lparr>files := fs2\<rparr>) input_file e
            | (fs2, None) \<Rightarrow> (w\<lparr>files := fs2\<rparr>, Inr True))
     \<and> decrypt_file U OS w input_file shift None
         = (case write_text OS fs1 (name @ ords ''_decrypted'' @ ext) dec of
              (fs2, Some e) \<Rightarrow> except_clauses OS (w\<lparr>files := fs2\<rparr>) input_file e
            | (fs2, None) \<Rightarrow> (w\<lparr>files := fs2\<rparr>, Inr True))
     \<and> encrypt_file U OS w input_file shift None
         = encrypt_file U OS w input_file shift (Some (name @ ords ''_encrypted'' @ ext))
     \<and> decrypt_file U OS w input_file shift None
         = decrypt_file U OS w input_file shift (Some (name @ ords ''_decrypted'' @ ext))"
proof -
  have e: "encrypt U content shift = Inr (map (rot U shift) content)"
    using assms(2,3) by (simp add: encrypt_def cipher_valid)
  have d: "decrypt U content shift = Inr (map (rot U (- shift)) content)"
    using assms(2,3) by (simp add: decrypt_def cipher_valid)
  show ?thesis
    using assms(1,4) by (simp add: e d encrypt_file_def decrypt_file_def)
qed

theorem default_output_path_witness:
  "read_text (mem_os []) [(ords ''notes.txt'', ords ''Hello'')] (ords ''notes.txt'')
     = ([(ords ''notes.txt'', ords ''Hello'')], Inr (ords ''Hello''))
   \<and> (1::int) \<le> 3 \<and> (3::int) \<le> 25
   \<and> splitext (mem_os []) (ords ''notes.txt'') = (ords ''notes'', ords ''.txt'')
   \<and> encrypt_file latin1 (mem_os [])
        \<lparr>files = [(ords ''notes.txt'', ords ''Hello'')], stdout = []\<rparr> (ords ''notes.txt'') 3 None
      = (\<lparr>files = [(ords ''notes.txt'', ords ''Hello''),
                   (ords ''notes_encrypted.txt'', ords ''Khoor'')], stdout = []\<rparr>, Inr True)
   \<and> decrypt_file latin1 (mem_os [])
        \<lparr>files = [(ords ''notes.txt'', ords ''Hello'')], stdout = []\<rparr> (ords ''notes.txt'') 3 None
      = (\<lparr>files = [(ords ''notes.txt'', ords ''Hello''),
                   (ords ''notes_decrypted.txt'', ords ''Ebiil'')], stdout = []\<rparr>, Inr True)"
  using default_output_path [of "mem_os []"
      "\<lparr>files = [(ords ''notes.txt'', ords ''Hello'')], stdout = []\<rparr>" "ords ''notes.txt''"
      "[(ords ''notes.txt'', ords ''Hello'')]" "ords ''Hello''" 3 "ords ''notes''" "ords ''.txt''"
      latin1]
  by (simp add: mem_os_def posix_splitext_def rfind_def ords_def encrypt_def decrypt_def
      cipher_def min_shift_def max_shift_def alphabet_size_def chr_def latin1_def
      latin1_isalpha_def latin1_isupper_def)





end
